theory Spec2Isabelle
  imports Main "HOL-Library.Word" "HOL-Library.AList"
begin

unbundle bit_operations_syntax

section \<open>Values of the host language\<close>

text \<open>
  A \<open>Buffer\<close> is a sequence of bytes. A JavaScript string is a sequence of UTF-16 code
  units. Message ids, types and sizes are JavaScript numbers holding integers; they are
  modelled as \<open>int\<close>, and the range checks of the buffer writers are written out.
\<close>

type_synonym byte = "8 word"
type_synonym Buffer = "byte list"
type_synonym jsstring = "16 word list"

datatype error =
    ERR_OUT_OF_RANGE       \<comment> \<open>RangeError of the Buffer readers and writers\<close>
  | ConnectionNotFound     \<comment> \<open>\<open>new Error("Connection not found")\<close>\<close>
  | BadResource            \<comment> \<open>\<open>Deno.errors.BadResource\<close>: the resource is closed\<close>
  | TypeError              \<comment> \<open>property access or iteration on \<open>undefined\<close>\<close>
  | TransportError         \<comment> \<open>any other fault reported by the transport\<close>

text \<open>The upper bound of the length of a string of the runtime (V8).\<close>

definition kStringMaxLength :: nat where
  "kStringMaxLength = 536870888"

definition is_jsstring :: "jsstring \<Rightarrow> bool" where
  "is_jsstring s \<longleftrightarrow> length s \<le> kStringMaxLength"

definition is_int32 :: "int \<Rightarrow> bool" where
  "is_int32 v \<longleftrightarrow> - 2147483648 \<le> v \<and> v \<le> 2147483647"

definition is_ascii :: "jsstring \<Rightarrow> bool" where
  "is_ascii s \<longleftrightarrow> list_all (\<lambda>c. c < 0x80) s"

definition is_printable_ascii :: "jsstring \<Rightarrow> bool" where
  "is_printable_ascii s \<longleftrightarrow> list_all (\<lambda>c. 0x20 \<le> c \<and> c \<le> 0x7E) s"

section \<open>The Buffer operations the server uses\<close>

text \<open>
  \<open>Buffer.byteLength(string)\<close> with its default encoding, UTF-8: one byte for a code unit
  below \<open>0x80\<close>, two below \<open>0x800\<close>, four for a surrogate pair, three otherwise (a lone
  surrogate is encoded as U+FFFD).
\<close>

definition unitLength :: "16 word \<Rightarrow> nat" where
  "unitLength c = (if c < 0x80 then 1 else if c < 0x800 then 2 else 3)"

definition isHighSurrogate :: "16 word \<Rightarrow> bool" where
  "isHighSurrogate c \<longleftrightarrow> 0xD800 \<le> c \<and> c < 0xDC00"

definition isLowSurrogate :: "16 word \<Rightarrow> bool" where
  "isLowSurrogate c \<longleftrightarrow> 0xDC00 \<le> c \<and> c < 0xE000"

fun byteLength :: "jsstring \<Rightarrow> nat" where
  "byteLength [] = 0"
| "byteLength [c] = unitLength c"
| "byteLength (c # d # ds) =
     (if isHighSurrogate c \<and> isLowSurrogate d then 4 + byteLength ds
      else unitLength c + byteLength (d # ds))"

text \<open>\<open>Buffer.alloc(size)\<close>: a zero-filled buffer.\<close>

definition Buffer_alloc :: "nat \<Rightarrow> Buffer" where
  "Buffer_alloc n = replicate n 0"

text \<open>
  \<open>buf.writeInt32LE(value, offset)\<close>: the value is checked against the signed 32-bit range,
  the offset against the buffer, and the four bytes are stored lowest first
  (\<open>buf[offset++] = value; value = value >>> 8; ...\<close>).
\<close>

definition le32 :: "int \<Rightarrow> byte list" where
  "le32 v = (let w = (word_of_int v :: 32 word)
             in [ucast w, ucast (drop_bit 8 w), ucast (drop_bit 16 w), ucast (drop_bit 24 w)])"

definition writeInt32LE :: "Buffer \<Rightarrow> int \<Rightarrow> nat \<Rightarrow> error + Buffer" where
  "writeInt32LE buf v offset =
     (if v < - 2147483648 \<or> 2147483647 < v then Inl ERR_OUT_OF_RANGE
      else if length buf < offset + 4 then Inl ERR_OUT_OF_RANGE
      else Inr (take offset buf @ le32 v @ drop (offset + 4) buf))"

text \<open>\<open>buf.writeInt16BE(value, offset)\<close>: two bytes, highest first.\<close>

definition be16 :: "int \<Rightarrow> byte list" where
  "be16 v = (let w = (word_of_int v :: 16 word) in [ucast (drop_bit 8 w), ucast w])"

definition writeInt16BE :: "Buffer \<Rightarrow> int \<Rightarrow> nat \<Rightarrow> error + Buffer" where
  "writeInt16BE buf v offset =
     (if v < - 32768 \<or> 32767 < v then Inl ERR_OUT_OF_RANGE
      else if length buf < offset + 2 then Inl ERR_OUT_OF_RANGE
      else Inr (take offset buf @ be16 v @ drop (offset + 2) buf))"

text \<open>
  \<open>buf.readInt32LE(offset)\<close>: raises when the four bytes are not all inside the buffer;
  otherwise \<open>b0 + b1 * 2 ** 8 + b2 * 2 ** 16 + (b3 << 24)\<close>, where the shift is the
  signed 32-bit one.
\<close>

definition int32_of_bytes :: "byte \<Rightarrow> byte \<Rightarrow> byte \<Rightarrow> byte \<Rightarrow> int" where
  "int32_of_bytes b0 b1 b2 b3 =
     uint b0 + uint b1 * 2 ^ 8 + uint b2 * 2 ^ 16 + sint (push_bit 24 (ucast b3 :: 32 word))"

definition readInt32LE :: "Buffer \<Rightarrow> nat \<Rightarrow> error + int" where
  "readInt32LE buf offset =
     (if length buf < offset + 4 then Inl ERR_OUT_OF_RANGE
      else Inr (int32_of_bytes (buf ! offset) (buf ! (offset + 1)) (buf ! (offset + 2))
                  (buf ! (offset + 3))))"

text \<open>
  \<open>buf.write(string, offset, length, "ascii")\<close>: offset and length are validated against the
  buffer length, the length is cut to what remains after the offset, and one byte per
  code unit (\<open>charCodeAt(i) & 255\<close>) is stored until the length, the string or the buffer
  ends.
\<close>

definition asciiToBytes :: "jsstring \<Rightarrow> byte list" where
  "asciiToBytes str = map (\<lambda>c. ucast (c AND 255)) str"

definition blitBuffer :: "byte list \<Rightarrow> Buffer \<Rightarrow> nat \<Rightarrow> nat \<Rightarrow> Buffer" where
  "blitBuffer src dst offset len =
     (let n = min len (min (length src) (length dst - offset))
      in take offset dst @ take n src @ drop (offset + n) dst)"

definition Buffer_write :: "Buffer \<Rightarrow> jsstring \<Rightarrow> nat \<Rightarrow> nat \<Rightarrow> error + Buffer" where
  "Buffer_write buf string offset len =
     (if length buf < offset then Inl ERR_OUT_OF_RANGE
      else if length buf < len then Inl ERR_OUT_OF_RANGE
      else let remaining = length buf - offset;
               len' = (if remaining < len then remaining else len)
           in Inr (blitBuffer (asciiToBytes string) buf offset len'))"

text \<open>
  \<open>buf.toString("ascii", start, end)\<close>, with \<open>stop\<close> for its last argument: the empty
  string when the start is at or beyond the length of the buffer or the stop is not
  beyond the start; a stop beyond the buffer is the length of the buffer; each byte
  gives the code unit \<open>byte & 127\<close>.
\<close>

definition asciiSlice :: "Buffer \<Rightarrow> nat \<Rightarrow> nat \<Rightarrow> jsstring" where
  "asciiSlice buf start stop = map (\<lambda>b. ucast (b AND 127)) (take (stop - start) (drop start buf))"

definition Buffer_toString :: "Buffer \<Rightarrow> int \<Rightarrow> int \<Rightarrow> jsstring" where
  "Buffer_toString buf start stop =
     (let len = int (length buf) in
      if start > 0 \<and> start \<ge> len then []
      else let start' = (if start \<le> 0 then 0 else start);
               stop' = (if stop > len then len else stop)
           in if stop' \<le> start' then [] else asciiSlice buf (nat start') (nat stop'))"

section \<open>Messages\<close>

type_synonym MessageType = int

definition SERVERDATA_RESPONSE_VALUE :: MessageType where
  "SERVERDATA_RESPONSE_VALUE = 0"

definition SERVERDATA_EXECCOMMAND :: MessageType where
  "SERVERDATA_EXECCOMMAND = 2"

definition SERVERDATA_AUTH_RESPONSE :: MessageType where
  "SERVERDATA_AUTH_RESPONSE = 2"

definition SERVERDATA_AUTH :: MessageType where
  "SERVERDATA_AUTH = 3"

definition is_MessageType :: "int \<Rightarrow> bool" where
  "is_MessageType t \<longleftrightarrow>
     t = SERVERDATA_RESPONSE_VALUE \<or> t = SERVERDATA_EXECCOMMAND
     \<or> t = SERVERDATA_AUTH_RESPONSE \<or> t = SERVERDATA_AUTH"

record BaseMessage =
  id_base :: "int option"
  type_base :: MessageType
  body_base :: jsstring

record Message =
  id_msg :: int
  type_msg :: MessageType
  body_msg :: jsstring
  size_msg :: int

section \<open>The frame codec\<close>

text \<open>
  \<open>generateId\<close> returns the element of a \<open>Uint32Array\<close> that \<open>crypto.getRandomValues\<close> has
  filled; the random element is a parameter.
\<close>

definition generateId :: "32 word \<Rightarrow> int" where
  "generateId rnd = uint rnd"

definition writeMessage :: "32 word \<Rightarrow> BaseMessage \<Rightarrow> error + Buffer" where
  "writeMessage rnd message =
     (let bodySize = byteLength (body_base message);
          buffer = Buffer_alloc (bodySize + 14)
      in case writeInt32LE buffer (int bodySize + 10) 0 of
           Inl e \<Rightarrow> Inl e
         | Inr b1 \<Rightarrow>
          (case writeInt32LE b1
                  (case id_base message of Some i \<Rightarrow> i | None \<Rightarrow> generateId rnd) 4 of
             Inl e \<Rightarrow> Inl e
           | Inr b2 \<Rightarrow>
            (case writeInt32LE b2 (type_base message) 8 of
               Inl e \<Rightarrow> Inl e
             | Inr b3 \<Rightarrow>
              (case Buffer_write b3 (body_base message) 12 (bodySize + 10) of
                 Inl e \<Rightarrow> Inl e
               | Inr b4 \<Rightarrow> writeInt16BE b4 0 (bodySize + 12)))))"

definition readResponse :: "Buffer \<Rightarrow> error + Message" where
  "readResponse buffer =
     (case readInt32LE buffer 0 of
        Inl e \<Rightarrow> Inl e
      | Inr sz \<Rightarrow>
       (case readInt32LE buffer 4 of
          Inl e \<Rightarrow> Inl e
        | Inr ident \<Rightarrow>
         (case readInt32LE buffer 8 of
            Inl e \<Rightarrow> Inl e
          | Inr ty \<Rightarrow>
             Inr \<lparr>id_msg = ident, type_msg = ty,
                  body_msg = Buffer_toString buffer 12 (sz + 2), size_msg = sz\<rparr>)))"

text \<open>
  The layout of a frame on the wire: the size field, the id, the type, the bytes of the
  body and two zero bytes.
\<close>

definition frame_bytes :: "int \<Rightarrow> int \<Rightarrow> int \<Rightarrow> byte list \<Rightarrow> Buffer" where
  "frame_bytes sz i t bodyBytes = le32 sz @ le32 i @ le32 t @ bodyBytes @ [0, 0]"

section \<open>The server\<close>

text \<open>
  A \<open>Deno.Conn\<close> is a resource of the runtime, named by its resource id \<open>rid\<close>. Its
  state is what has been written to it, one buffer per \<open>write\<close>, and whether it has
  been closed. Writing to or closing a closed resource raises \<open>BadResource\<close>.
\<close>

type_synonym rid = nat

record Conn =
  written :: "Buffer list"
  closed :: bool

datatype event =
    Connection rid
  | Request rid Message
  | Close rid
  | Unreplied rid Message

text \<open>
  The two \<open>Map\<close>s of the server are association lists in insertion order: \<open>get\<close> is
  \<open>map_of\<close>, \<open>set\<close> is \<open>AList.update\<close> (an existing key keeps its place, a new one goes
  to the end), \<open>delete\<close> is \<open>AList.delete\<close>. The events passed to \<open>emit\<close> are
  recorded in order. The resource table of the runtime is carried along with the
  server.
\<close>

record RCONServer =
  password :: jsstring
  connections :: "(rid \<times> rid) list"
  unreplied :: "(rid \<times> Message list) list"
  emitted :: "event list"
  resources :: "rid \<Rightarrow> Conn"

text \<open>
  The constructor leaves both maps empty, and nothing has been emitted. The host and the
  port only reach \<open>Deno.listen\<close>. No connection resource is open before the listener
  yields one; \<open>accept\<close> is the runtime opening the resource of a new connection.
\<close>

definition new_RCONServer :: "jsstring \<Rightarrow> RCONServer" where
  "new_RCONServer pw =
     \<lparr>password = pw, connections = [], unreplied = [], emitted = [],
      resources = (\<lambda>_. \<lparr>written = [], closed = True\<rparr>)\<rparr>"

definition accept :: "rid \<Rightarrow> RCONServer \<Rightarrow> RCONServer" where
  "accept conn s = s\<lparr>resources := (resources s)(conn := \<lparr>written = [], closed = False\<rparr>)\<rparr>"

definition emit :: "event \<Rightarrow> RCONServer \<Rightarrow> RCONServer" where
  "emit e s = s\<lparr>emitted := emitted s @ [e]\<rparr>"

definition conn_write :: "rid \<Rightarrow> Buffer \<Rightarrow> RCONServer \<Rightarrow> error option \<times> RCONServer" where
  "conn_write conn p s =
     (if closed (resources s conn) then (Some BadResource, s)
      else (None, s\<lparr>resources := (resources s)
                      (conn := (resources s conn)\<lparr>written := written (resources s conn) @ [p]\<rparr>)\<rparr>))"

definition conn_close :: "rid \<Rightarrow> RCONServer \<Rightarrow> error option \<times> RCONServer" where
  "conn_close conn s =
     (if closed (resources s conn) then (Some BadResource, s)
      else (None, s\<lparr>resources := (resources s)(conn := (resources s conn)\<lparr>closed := True\<rparr>)\<rparr>))"

text \<open>
  \<open>conn.read(authBuf)\<close> copies the bytes that have arrived to the start of the zero-filled
  \<open>authBuf\<close>, as many as fit.
\<close>

definition conn_read :: "nat \<Rightarrow> Buffer \<Rightarrow> Buffer" where
  "conn_read n arrived = take n (arrived @ replicate n 0)"

subsection \<open>\<open>handleConnection\<close>: authentication\<close>

datatype outcome =
    Returned         \<comment> \<open>the connection was closed and \<open>handleConnection\<close> returned\<close>
  | Authenticated    \<comment> \<open>the connection is registered and the read loop starts\<close>
  | Raised error     \<comment> \<open>an exception left \<open>handleConnection\<close>\<close>

definition handleConnection_auth ::
  "32 word \<Rightarrow> rid \<Rightarrow> error + Buffer \<Rightarrow> RCONServer \<Rightarrow> outcome \<times> RCONServer" where
  "handleConnection_auth rnd conn arrival s =
     (case arrival of
        Inl e \<Rightarrow> (Raised e, s)
      | Inr arrived \<Rightarrow>
       (let authBuf = conn_read (4 + 4 + 4 + byteLength (password s) + 2) arrived in
        case readResponse authBuf of
          Inl e \<Rightarrow> (Raised e, s)
        | Inr authMessage \<Rightarrow>
           if type_msg authMessage \<noteq> SERVERDATA_AUTH then
             (case conn_close conn s of
                (Some e, s') \<Rightarrow> (Raised e, s')
              | (None, s') \<Rightarrow> (Returned, s'))
           else
             (case writeMessage rnd \<lparr>id_base = Some (id_msg authMessage),
                     type_base = SERVERDATA_RESPONSE_VALUE, body_base = []\<rparr> of
                Inl e \<Rightarrow> (Raised e, s)
              | Inr p1 \<Rightarrow>
               (case conn_write conn p1 s of
                  (Some e, s1) \<Rightarrow> (Raised e, s1)
                | (None, s1) \<Rightarrow>
                   if body_msg authMessage \<noteq> password s then
                     (case writeMessage rnd \<lparr>id_base = Some (- 1),
                             type_base = SERVERDATA_AUTH_RESPONSE, body_base = []\<rparr> of
                        Inl e \<Rightarrow> (Raised e, s1)
                      | Inr p2 \<Rightarrow>
                       (case conn_write conn p2 s1 of
                          (Some e, s2) \<Rightarrow> (Raised e, s2)
                        | (None, s2) \<Rightarrow>
                           (case conn_close conn s2 of
                              (Some e, s3) \<Rightarrow> (Raised e, s3)
                            | (None, s3) \<Rightarrow> (Returned, s3))))
                   else
                     (case writeMessage rnd \<lparr>id_base = Some (id_msg authMessage),
                             type_base = SERVERDATA_AUTH_RESPONSE, body_base = []\<rparr> of
                        Inl e \<Rightarrow> (Raised e, s1)
                      | Inr p2 \<Rightarrow>
                       (case conn_write conn p2 s1 of
                          (Some e, s2) \<Rightarrow> (Raised e, s2)
                        | (None, s2) \<Rightarrow>
                           (let s3 = emit (Connection conn) s2;
                                s4 = s3\<lparr>connections := AList.update conn conn (connections s3)\<rparr>;
                                s5 = s4\<lparr>unreplied := AList.update conn [] (unreplied s4)\<rparr>
                            in (Authenticated, s5))))))))"

subsection \<open>\<open>closeConnection\<close>, \<open>reply\<close>\<close>

definition closeConnection :: "rid \<Rightarrow> RCONServer \<Rightarrow> error option \<times> RCONServer" where
  "closeConnection r s =
     (case map_of (connections s) r of
        None \<Rightarrow> (None, s)
      | Some conn \<Rightarrow>
         (case conn_close conn s of
            (Some e, s1) \<Rightarrow> (Some e, s1)
          | (None, s1) \<Rightarrow>
             (let s2 = s1\<lparr>connections := AList.delete r (connections s1)\<rparr>;
                  s3 = emit (Close r) s2;
                  s4 = s3\<lparr>unreplied := AList.delete r (unreplied s3)\<rparr>
              in (None, s4))))"

definition reply ::
  "32 word \<Rightarrow> rid \<Rightarrow> int \<Rightarrow> jsstring \<Rightarrow> RCONServer \<Rightarrow> error option \<times> RCONServer" where
  "reply rnd r reqId body s =
     (case map_of (connections s) r of
        None \<Rightarrow> (Some ConnectionNotFound, s)
      | Some conn \<Rightarrow>
         (case writeMessage rnd \<lparr>id_base = Some reqId,
                 type_base = SERVERDATA_RESPONSE_VALUE, body_base = body\<rparr> of
            Inl e \<Rightarrow> (Some e, s)
          | Inr message \<Rightarrow>
             (case conn_write conn message s of
                (Some e, s1) \<Rightarrow> (Some e, s1)
              | (None, s1) \<Rightarrow>
                 (case map_of (unreplied s1) r of
                    None \<Rightarrow> (None, s1)
                  | Some pending \<Rightarrow>
                     (let filtered = filter (\<lambda>m. id_msg m \<noteq> reqId) pending
                      in (None, s1\<lparr>unreplied := AList.update r filtered (unreplied s1)\<rparr>))))))"

subsection \<open>\<open>handleConnection\<close>: the read loop\<close>

text \<open>
  One turn of the \<open>for await\<close> loop, on the buffer that \<open>iterateReader\<close> yields. The
  echo \<open>conn.write(buffer)\<close> is not awaited: when it fails, nothing is raised in the loop.
\<close>

definition handleBuffer :: "rid \<Rightarrow> Buffer \<Rightarrow> RCONServer \<Rightarrow> error option \<times> RCONServer" where
  "handleBuffer conn buffer s =
     (case readResponse buffer of
        Inl e \<Rightarrow> (Some e, s)
      | Inr message \<Rightarrow>
         if type_msg message = SERVERDATA_EXECCOMMAND then
           (let s1 = emit (Request conn message) s
            in case map_of (unreplied s1) conn of
                 None \<Rightarrow> (None, s1)
               | Some pending \<Rightarrow>
                   (None, s1\<lparr>unreplied := AList.update conn (pending @ [message]) (unreplied s1)\<rparr>))
         else if type_msg message = SERVERDATA_RESPONSE_VALUE then
           (None, snd (conn_write conn buffer s))
         else (None, s))"

text \<open>
  The loop runs over the buffers that arrive and ends when the reader reports the end
  of the stream or raises. An exception inside the \<open>try\<close> block closes the connection
  when it is \<open>BadResource\<close> and is dropped otherwise.
\<close>

datatype ending = EOF | ReadError error

definition catch_block :: "rid \<Rightarrow> error \<Rightarrow> RCONServer \<Rightarrow> error option \<times> RCONServer" where
  "catch_block conn e s = (if e = BadResource then closeConnection conn s else (None, s))"

fun handleConnection_loop ::
  "rid \<Rightarrow> Buffer list \<Rightarrow> ending \<Rightarrow> RCONServer \<Rightarrow> error option \<times> RCONServer" where
  "handleConnection_loop conn [] EOF s =
     (case closeConnection conn s of
        (Some e, s') \<Rightarrow> catch_block conn e s'
      | (None, s') \<Rightarrow> (None, s'))"
| "handleConnection_loop conn [] (ReadError e) s = catch_block conn e s"
| "handleConnection_loop conn (buffer # buffers) fin s =
     (case handleBuffer conn buffer s of
        (Some e, s') \<Rightarrow> catch_block conn e s'
      | (None, s') \<Rightarrow> handleConnection_loop conn buffers fin s')"

definition handleConnection ::
  "32 word \<Rightarrow> rid \<Rightarrow> error + Buffer \<Rightarrow> Buffer list \<Rightarrow> ending \<Rightarrow> RCONServer
     \<Rightarrow> error option \<times> RCONServer" where
  "handleConnection rnd conn arrival buffers fin s =
     (case handleConnection_auth rnd conn arrival s of
        (Raised e, s') \<Rightarrow> (Some e, s')
      | (Returned, s') \<Rightarrow> (None, s')
      | (Authenticated, s') \<Rightarrow> handleConnection_loop conn buffers fin s')"

subsection \<open>\<open>notifyUnreplied\<close> and the timer\<close>

text \<open>
  \<open>notifyUnreplied\<close> reads \<open>this.unreplied\<close> and calls \<open>this.emit\<close>, so what it does depends on
  the receiver of the call. Called as a method of the server it walks the map in
  order. Called with any other receiver, \<open>this.unreplied\<close> is \<open>undefined\<close> and the
  \<open>for ... of\<close> raises a \<open>TypeError\<close> before anything is emitted.
\<close>

datatype receiver = TheServer | NotTheServer

definition notifyUnreplied :: "receiver \<Rightarrow> RCONServer \<Rightarrow> error option \<times> RCONServer" where
  "notifyUnreplied this s =
     (case this of
        NotTheServer \<Rightarrow> (Some TypeError, s)
      | TheServer \<Rightarrow>
          (None, s\<lparr>emitted := emitted s
                     @ concat (map (\<lambda>(r, messages). map (Unreplied r) messages) (unreplied s))\<rparr>))"

text \<open>
  The constructor starts the timer with \<open>setInterval(this.notifyUnreplied, 60 * 1000)\<close>:
  the function is passed without its receiver, and the timer calls it with the global
  object as \<open>this\<close>.
\<close>

definition unrepliedInterval_tick :: "RCONServer \<Rightarrow> error option \<times> RCONServer" where
  "unrepliedInterval_tick s = notifyUnreplied NotTheServer s"

text \<open>
  A connection is registered when \<open>handleConnection\<close> has entered it in both maps under its
  own resource id and the resource is open.
\<close>

definition registered :: "RCONServer \<Rightarrow> rid \<Rightarrow> bool" where
  "registered s r \<longleftrightarrow>
     map_of (connections s) r = Some r \<and> map_of (unreplied s) r \<noteq> None
     \<and> \<not> closed (resources s r)"

definition pending :: "RCONServer \<Rightarrow> rid \<Rightarrow> Message list" where
  "pending s r = (case map_of (unreplied s) r of None \<Rightarrow> [] | Some ms \<Rightarrow> ms)"

subsection \<open>The data of the examples\<close>

text \<open>
  The strings \<open>"secret"\<close>, \<open>"wrong"\<close>, \<open>"status"\<close> and \<open>"ok"\<close>, a server with the password
  \<open>"secret"\<close> on which connection 5 has just been accepted, and the same server once
  connection 5 has sent the frame with id 7, type \<open>SERVERDATA_AUTH\<close> and body
  \<open>"secret"\<close>.
\<close>

definition str_secret :: jsstring where
  "str_secret = [0x73, 0x65, 0x63, 0x72, 0x65, 0x74]"

definition str_wrong :: jsstring where
  "str_wrong = [0x77, 0x72, 0x6F, 0x6E, 0x67]"

definition str_status :: jsstring where
  "str_status = [0x73, 0x74, 0x61, 0x74, 0x75, 0x73]"

definition str_ok :: jsstring where
  "str_ok = [0x6F, 0x6B]"

definition server_accepted :: RCONServer where
  "server_accepted = accept 5 (new_RCONServer str_secret)"

definition server_authenticated :: RCONServer where
  "server_authenticated =
     snd (handleConnection_auth 0 5
            (Inr (frame_bytes 16 7 SERVERDATA_AUTH (asciiToBytes str_secret))) server_accepted)"

text \<open>
  The authenticated server after three requests on connection 5: \<open>"status"\<close> with id
  42, \<open>"ok"\<close> with id 43, and \<open>"ok"\<close> with id 42 again.
\<close>

definition server_pending :: RCONServer where
  "server_pending =
     snd (handleBuffer 5 (frame_bytes 12 42 SERVERDATA_EXECCOMMAND (asciiToBytes str_ok))
       (snd (handleBuffer 5 (frame_bytes 12 43 SERVERDATA_EXECCOMMAND (asciiToBytes str_ok))
         (snd (handleBuffer 5 (frame_bytes 16 42 SERVERDATA_EXECCOMMAND (asciiToBytes str_status))
            server_authenticated)))))"

section \<open>Reading and writing 32-bit integers\<close>

lemma uint32_bounds: "0 \<le> uint (w::32 word)" "uint (w::32 word) < 4294967296"
  using uint_lt2p[of w] by simp_all

lemma uint8_bounds: "0 \<le> uint (b::8 word)" "uint (b::8 word) < 256"
  using uint_lt2p[of b] by simp_all

lemma uint_drop_bit32: "uint (drop_bit n (w::32 word)) = uint w div 2 ^ n"
proof -
  have "take_bit LENGTH(32) (uint w) = uint w"
    using uint32_bounds[of w] by (simp add: take_bit_int_eq_self)
  then show ?thesis
    unfolding unsigned_drop_bit_eq by (simp add: drop_bit_eq_div)
qed

lemma uint_ucast_byte: "uint (ucast (w::32 word) :: 8 word) = uint w mod 256"
  by (simp add: unsigned_ucast_eq take_bit_eq_mod)

lemma uint_byte_of_word: "uint (ucast (drop_bit n (w::32 word)) :: 8 word) = (uint w div 2^n) mod 256"
  by (simp only: uint_ucast_byte uint_drop_bit32)

lemma uint_push_byte: "uint (push_bit 24 (ucast (b::8 word)) :: 32 word) = uint b * 16777216"
proof -
  have "uint b * 16777216 mod 4294967296 = uint b * 16777216"
    using uint8_bounds[of b] by simp
  moreover have "take_bit 32 (uint b) = uint b"
    using uint8_bounds[of b] by (simp add: take_bit_int_eq_self)
  ultimately show ?thesis
    unfolding unsigned_push_bit_eq unsigned_ucast_eq 
    by (simp add: take_bit_eq_mod push_bit_eq_mult)
qed

lemma int_bytes:
  fixes u :: int
  shows "u mod 256 + (u div 256 mod 256) * 256 + (u div 65536 mod 256) * 65536
         + (u div 16777216) * 16777216 = u"
proof -
  define q1 where "q1 = u div 256"
  define q2 where "q2 = q1 div 256"
  define q3 where "q3 = q2 div 256"
  have d2: "u div 65536 = q2"
    using zdiv_zmult2_eq[of 256 u 256] by (simp add: q1_def q2_def)
  have d3: "u div 16777216 = q3"
    using zdiv_zmult2_eq[of 256 u 65536] d2 by (simp add: q3_def)
  have e1: "u = q1 * 256 + u mod 256"
    unfolding q1_def by simp
  have e2: "q1 = q2 * 256 + q1 mod 256"
    unfolding q2_def by simp
  have e3: "q2 = q3 * 256 + q2 mod 256"
    unfolding q3_def by simp
  define r0 where "r0 = u mod 256"
  define r1 where "r1 = q1 mod 256"
  define r2 where "r2 = q2 mod 256"
  have "r0 + r1 * 256 + r2 * 65536 + q3 * 16777216 = u"
    using e1 e2 e3 unfolding r0_def[symmetric] r1_def[symmetric] r2_def[symmetric] by linarith
  then show ?thesis
    unfolding d2 d3 r0_def r1_def r2_def q1_def[symmetric] .
qed

lemma top_byte:
  fixes u :: int 
  assumes "0 \<le> u" "u < 4294967296"
  shows "u div 16777216 mod 256 = u div 16777216"
proof -
  have "u div 16777216 < 256" using assms by linarith
  moreover have "0 \<le> u div 16777216" using assms by simp
  ultimately show ?thesis by simp
qed

lemma top_byte_sign:
  fixes u :: int 
  assumes "0 \<le> u" "u < 4294967296" 
  shows "u div 16777216 < 128 \<longleftrightarrow> u < 2147483648"
  using assms by linarith

lemma signed_of_unsigned: 
  fixes u :: int 
  assumes "0 \<le> u" "u < 4294967296" 
  shows "(u + 2147483648) mod 4294967296 - 2147483648 = (if u < 2147483648 then u else u - 4294967296)"
proof (cases "u < 2147483648")
  case True
  then have "(u + 2147483648) mod 4294967296 = u + 2147483648" using assms by simp
  then show ?thesis using True by simp
next
  case False
  have e: "u + 2147483648 = (u - 2147483648) + 4294967296" by arith
  have "(u + 2147483648) mod 4294967296 = (u - 2147483648) mod 4294967296"
    by (subst e) (simp only: mod_add_self2)
  also have "\<dots> = u - 2147483648" using assms False by simp
  finally show ?thesis using False by simp
qed

lemma signed_take_bit_31:
  "signed_take_bit 31 (u::int) = (u + 2147483648) mod 4294967296 - 2147483648"
  unfolding signed_take_bit_eq_take_bit_shift take_bit_eq_mod by simp

lemma sint32_of_uint:
  "sint (w :: 32 word) = (if uint w < 2147483648 then uint w else uint w - 4294967296)"
proof -
  have "sint w = signed_take_bit 31 (uint w)"
    by (simp add: sint_uint)
  also have "\<dots> = (uint w + 2147483648) mod 4294967296 - 2147483648"
    by (rule signed_take_bit_31)
  also have "\<dots> = (if uint w < 2147483648 then uint w else uint w - 4294967296)"
    by (rule signed_of_unsigned[OF uint32_bounds])
  finally show ?thesis .
qed

lemma sint_push_byte:
  "sint (push_bit 24 (ucast (b::8 word)) :: 32 word)
     = (if uint b < 128 then uint b * 16777216 else uint b * 16777216 - 4294967296)"
proof -
  have c: "uint b * 16777216 < 2147483648 \<longleftrightarrow> uint b < 128" by linarith
  show ?thesis
    unfolding sint32_of_uint uint_push_byte c ..
qed

lemma sint_word_of_int32: "is_int32 v \<Longrightarrow> sint (word_of_int v :: 32 word) = v"
  by (simp add: is_int32_def sint_sbintrunc' signed_take_bit_int_eq_self_iff)

lemma int32_of_bytes_word:
  "int32_of_bytes (ucast w) (ucast (drop_bit 8 w)) (ucast (drop_bit 16 w)) (ucast (drop_bit 24 w))
     = sint (w :: 32 word)"
proof -
  define u where "u = uint w"
  define a0 where "a0 = u mod 256"
  define a1 where "a1 = u div 256 mod 256"
  define a2 where "a2 = u div 65536 mod 256"
  define a3 where "a3 = u div 16777216"
  have b: "0 \<le> u" "u < 4294967296"
    unfolding u_def by (rule uint32_bounds)+
  have sum: "a0 + a1 * 256 + a2 * 65536 + a3 * 16777216 = u"
    unfolding a0_def a1_def a2_def a3_def by (rule int_bytes)
  have sign: "a3 < 128 \<longleftrightarrow> u < 2147483648"
    unfolding a3_def by (rule top_byte_sign[OF b])
  have u0: "uint (ucast w :: byte) = a0"
    unfolding a0_def u_def by (rule uint_ucast_byte)
  have u1: "uint (ucast (drop_bit 8 w) :: byte) = a1"
    unfolding a1_def u_def uint_byte_of_word by simp
  have u2: "uint (ucast (drop_bit 16 w) :: byte) = a2"
    unfolding a2_def u_def uint_byte_of_word by simp
  have u3: "uint (ucast (drop_bit 24 w) :: byte) = a3"
    unfolding a3_def u_def uint_byte_of_word using top_byte[OF b] by (simp add: u_def)
  have lhs: "int32_of_bytes (ucast w) (ucast (drop_bit 8 w)) (ucast (drop_bit 16 w)) (ucast (drop_bit 24 w))
      = a0 + a1 * 256 + a2 * 65536 + (if a3 < 128 then a3 * 16777216 else a3 * 16777216 - 4294967296)"
    unfolding int32_of_bytes_def sint_push_byte u0 u1 u2 u3 by simp
  have rhs: "sint w = (if u < 2147483648 then u else u - 4294967296)"
    unfolding u_def by (rule sint32_of_uint)
  show ?thesis
  proof (cases "u < 2147483648")
    case True
    then show ?thesis using sum sign unfolding lhs rhs by simp
  next
    case False
    then show ?thesis using sum sign unfolding lhs rhs by simp
  qed
qed


lemma length_le32 [simp]: "length (le32 v) = 4"
  by (simp add: le32_def Let_def)

lemma int32_of_bytes_le32:
  assumes "is_int32 v"
  shows "int32_of_bytes (le32 v ! 0) (le32 v ! 1) (le32 v ! 2) (le32 v ! 3) = v"
proof -
  have "int32_of_bytes (le32 v ! 0) (le32 v ! 1) (le32 v ! 2) (le32 v ! 3)
          = sint (word_of_int v :: 32 word)"
    using int32_of_bytes_word[of "word_of_int v"] by (simp add: le32_def Let_def)
  then show ?thesis
    using assms by (simp add: sint_word_of_int32)
qed

lemma readInt32LE_le32:
  assumes "is_int32 v" "length pre = offset"
  shows "readInt32LE (pre @ le32 v @ post) offset = Inr v"
proof -
  have n: "(pre @ le32 v @ post) ! (offset + k) = le32 v ! k" if "k < 4" for k
    using that assms(2) by (simp add: nth_append)
  have "(pre @ le32 v @ post) ! offset = le32 v ! 0"
    using n[of 0] by simp
  then show ?thesis
    using assms n[of 1] n[of 2] n[of 3] int32_of_bytes_le32[OF assms(1)]
    by (simp add: readInt32LE_def)
qed

lemma is_int32_int32_of_bytes: "is_int32 (int32_of_bytes b0 b1 b2 b3)"
proof -
  define x where "x = uint b0 + uint b1 * 256 + uint b2 * 65536"
  have lo: "0 \<le> x"
    unfolding x_def by simp
  have hi: "x < 16777216"
    unfolding x_def using uint8_bounds(2)[of b0] uint8_bounds(2)[of b1] uint8_bounds(2)[of b2]
    by linarith
  define y where "y = uint b3"
  have y: "0 \<le> y" "y < 256"
    unfolding y_def by (rule uint8_bounds)+
  have e: "int32_of_bytes b0 b1 b2 b3
             = x + (if y < 128 then y * 16777216 else y * 16777216 - 4294967296)"
    by (simp add: int32_of_bytes_def sint_push_byte x_def y_def)
  show ?thesis
  proof (cases "y < 128")
    case True
    then show ?thesis
      unfolding e is_int32_def using lo hi y by simp
  next
    case False
    then show ?thesis
      unfolding e is_int32_def using lo hi y by simp
  qed
qed

lemma readInt32LE_is_int32: "readInt32LE buf offset = Inr v \<Longrightarrow> is_int32 v"
  by (auto simp: readInt32LE_def is_int32_int32_of_bytes split: if_splits)

lemma writeInt32LE_at:
  assumes "is_int32 v" "length pre = offset" "length old = 4"
  shows "writeInt32LE (pre @ old @ post) v offset = Inr (pre @ le32 v @ post)"
  using assms by (simp add: writeInt32LE_def is_int32_def)

lemma writeInt16BE_zero_at:
  assumes "length pre = offset" "length old = 2"
  shows "writeInt16BE (pre @ old @ post) 0 offset = Inr (pre @ [0, 0] @ post)"
  using assms by (simp add: writeInt16BE_def be16_def)

section \<open>Strings and their bytes\<close>

lemma unitLength_bounds: "1 \<le> unitLength c" "unitLength c \<le> 3"
  by (simp_all add: unitLength_def)

lemma length_le_byteLength: "length s \<le> byteLength s"
proof (induction s rule: byteLength.induct)
  case 1
  then show ?case by simp
next
  case (2 c)
  then show ?case using unitLength_bounds(1)[of c] by simp
next
  case (3 c d ds)
  then show ?case using unitLength_bounds(1)[of c] by auto
qed

lemma byteLength_le: "byteLength s \<le> 3 * length s"
proof (induction s rule: byteLength.induct)
  case 1
  then show ?case by simp
next
  case (2 c)
  then show ?case using unitLength_bounds(2)[of c] by simp
next
  case (3 c d ds)
  then show ?case using unitLength_bounds(2)[of c] by auto
qed

lemma ascii_not_high: "(c::16 word) < 0x80 \<Longrightarrow> \<not> isHighSurrogate c"
  by (simp add: isHighSurrogate_def word_less_nat_alt word_le_nat_alt)

lemma byteLength_ascii: "is_ascii s \<Longrightarrow> byteLength s = length s"
proof (induction s rule: byteLength.induct)
  case 1
  then show ?case by simp
next
  case (2 c)
  then show ?case by (simp add: is_ascii_def unitLength_def)
next
  case (3 c d ds)
  then show ?case by (simp add: is_ascii_def unitLength_def ascii_not_high)
qed

lemma byteLength_size_in_range:
  assumes "is_jsstring s"
  shows "is_int32 (int (byteLength s) + 10)"
  using assms byteLength_le[of s] by (simp add: is_jsstring_def kStringMaxLength_def is_int32_def)

lemma printable_is_ascii: "is_printable_ascii s \<Longrightarrow> is_ascii s"
  unfolding is_printable_ascii_def is_ascii_def
  by (induction s) (auto simp: word_less_nat_alt word_le_nat_alt)

lemma mask_255: "(255::16 word) = mask 8"
  by (simp add: mask_eq_exp_minus_1)

lemma mask_127: "(127::8 word) = mask 7"
  by (simp add: mask_eq_exp_minus_1)

lemma ascii_unit_mask:
  fixes c :: "16 word"
  shows "ucast ((ucast (c AND 255) :: byte) AND 127) = take_bit 7 c"
  unfolding mask_255 mask_127
  by (rule bit_word_eqI) (auto simp: bit_simps)

lemma ascii_unit_roundtrip:
  fixes c :: "16 word"
  assumes "c < 0x80"
  shows "ucast ((ucast (c AND 255) :: byte) AND 127) = c"
proof -
  have "c < 2 ^ 7"
    using assms by simp
  then have "take_bit 7 c = c"
    using less_mask_eq[of c 7] by (simp add: take_bit_eq_mask)
  then show ?thesis
    by (simp only: ascii_unit_mask)
qed

lemma ascii_roundtrip:
  assumes "is_ascii s"
  shows "map (\<lambda>b. ucast (b AND 127)) (asciiToBytes s) = s"
  using assms
  by (induction s) (simp_all add: asciiToBytes_def is_ascii_def ascii_unit_roundtrip)

lemma unitLength_non_ascii: "\<not> c < 0x80 \<Longrightarrow> 2 \<le> unitLength c"
  by (simp add: unitLength_def)

lemma byteLength_non_ascii: "\<not> is_ascii s \<Longrightarrow> length s < byteLength s"
proof (induction s rule: byteLength.induct)
  case 1
  then show ?case by (simp add: is_ascii_def)
next
  case (2 c)
  then show ?case using unitLength_non_ascii[of c] by (simp add: is_ascii_def)
next
  case (3 c d ds)
  show ?case
  proof (cases "isHighSurrogate c \<and> isLowSurrogate d")
    case True
    then show ?thesis
      using length_le_byteLength[of ds] by simp
  next
    case False
    show ?thesis
    proof (cases "c < 0x80")
      case True
      then have "\<not> is_ascii (d # ds)"
        using "3.prems" by (simp add: is_ascii_def)
      then have "length (d # ds) < byteLength (d # ds)"
        using "3.IH"(2) False by blast
      then show ?thesis
        using False unitLength_bounds(1)[of c] by auto
    next
      case nc: False
      then show ?thesis
        using False unitLength_non_ascii[OF nc] length_le_byteLength[of "d # ds"] by auto
    qed
  qed
qed

section \<open>The encoder\<close>

lemma length_asciiToBytes [simp]: "length (asciiToBytes s) = length s"
  by (simp add: asciiToBytes_def)

lemma Buffer_write_at:
  assumes "length pre = offset" "length str \<le> m" "m \<le> len" "len \<le> offset + m"
  shows "Buffer_write (pre @ replicate m 0) str offset len
           = Inr (pre @ asciiToBytes str @ replicate (m - length str) 0)"
proof -
  have n: "min (if m < len then m else len) (min (length str) m) = length str"
    using assms(2,3) by simp
  show ?thesis
    using assms by (simp add: Buffer_write_def blitBuffer_def Let_def n)
qed

lemma replicate_split: "a = b + c \<Longrightarrow> replicate a x = replicate b x @ replicate c x"
  by (simp add: replicate_add)

lemma writeMessage_bytes:
  assumes "is_int32 i" "is_int32 t" "is_jsstring body"
  shows "writeMessage rnd \<lparr>id_base = Some i, type_base = t, body_base = body\<rparr>
           = Inr (frame_bytes (int (byteLength body) + 10) i t
                    (asciiToBytes body @ replicate (byteLength body - length body) 0))"
proof -
  define n where "n = byteLength body"
  define sz where "sz = le32 (int n + 10)"
  have k: "length body \<le> n"
    unfolding n_def by (rule length_le_byteLength)
  have szr: "is_int32 (int n + 10)"
    unfolding n_def using assms(3) by (rule byteLength_size_in_range)
  have lsz [simp]: "length sz = 4"
    by (simp add: sz_def)
  have r14: "replicate (n + 14) (0::byte) = replicate 4 0 @ replicate (n + 10) 0"
    by (rule replicate_split) simp
  have r10: "replicate (n + 10) (0::byte) = replicate 4 0 @ replicate (n + 6) 0"
    by (rule replicate_split) simp
  have r6: "replicate (n + 6) (0::byte) = replicate 4 0 @ replicate (n + 2) 0"
    by (rule replicate_split) simp
  have r2: "replicate (n + 2 - length body) (0::byte) = replicate (n - length body) 0 @ replicate 2 0"
    by (rule replicate_split) (use k in simp)
  have b1: "writeInt32LE (Buffer_alloc (n + 14)) (int n + 10) 0 = Inr (sz @ replicate (n + 10) 0)"
    unfolding Buffer_alloc_def r14 sz_def
    using writeInt32LE_at[OF szr, of "[]" 0 "replicate 4 0" "replicate (n + 10) 0"] by simp
  have b2: "writeInt32LE (sz @ replicate (n + 10) 0) i 4 = Inr (sz @ le32 i @ replicate (n + 6) 0)"
    unfolding r10
    using writeInt32LE_at[OF assms(1), of sz 4 "replicate 4 0" "replicate (n + 6) 0"] by simp
  have b3: "writeInt32LE (sz @ le32 i @ replicate (n + 6) 0) t 8
              = Inr (sz @ le32 i @ le32 t @ replicate (n + 2) 0)"
    unfolding r6
    using writeInt32LE_at[OF assms(2), of "sz @ le32 i" 8 "replicate 4 0" "replicate (n + 2) 0"]
    by simp
  have b4: "Buffer_write (sz @ le32 i @ le32 t @ replicate (n + 2) 0) body 12 (n + 10)
              = Inr (sz @ le32 i @ le32 t @ asciiToBytes body @ replicate (n + 2 - length body) 0)"
    using Buffer_write_at[of "sz @ le32 i @ le32 t" 12 body "n + 2" "n + 10"] k by simp
  have b5: "writeInt16BE (sz @ le32 i @ le32 t @ asciiToBytes body @ replicate (n + 2 - length body) 0) 0 (n + 12)
              = Inr (frame_bytes (int n + 10) i t (asciiToBytes body @ replicate (n - length body) 0))"
    unfolding r2 frame_bytes_def sz_def[symmetric]
    using writeInt16BE_zero_at[of "sz @ le32 i @ le32 t @ asciiToBytes body @ replicate (n - length body) 0" "n + 12" "replicate 2 0" "[]"] k
    by simp
  show ?thesis
    unfolding writeMessage_def Let_def
    by (simp only: BaseMessage.select_convs option.case n_def[symmetric] b1 b2 b3 b4 b5 sum.case)
qed

section \<open>The decoder\<close>

lemma length_frame_bytes [simp]: "length (frame_bytes sz i t bb) = 14 + length bb"
  by (simp add: frame_bytes_def)

lemma readResponse_frame:
  assumes "is_int32 sz" "is_int32 i" "is_int32 t"
  shows "readResponse (frame_bytes sz i t bb)
           = Inr \<lparr>id_msg = i, type_msg = t,
                  body_msg = Buffer_toString (frame_bytes sz i t bb) 12 (sz + 2), size_msg = sz\<rparr>"
proof -
  have r0: "readInt32LE (frame_bytes sz i t bb) 0 = Inr sz"
    unfolding frame_bytes_def
    using readInt32LE_le32[OF assms(1), of "[]" 0] by simp
  have r4: "readInt32LE (frame_bytes sz i t bb) 4 = Inr i"
    unfolding frame_bytes_def
    using readInt32LE_le32[OF assms(2), of "le32 sz" 4] by simp
  have r8: "readInt32LE (frame_bytes sz i t bb) 8 = Inr t"
    unfolding frame_bytes_def
    using readInt32LE_le32[OF assms(3), of "le32 sz @ le32 i" 8] by simp
  show ?thesis
    by (simp add: readResponse_def r0 r4 r8)
qed

lemma Buffer_toString_frame:
  assumes "sz = int (length bb) + 10"
  shows "Buffer_toString (frame_bytes sz i t bb) 12 (sz + 2) = map (\<lambda>b. ucast (b AND 127)) bb"
proof -
  have d: "drop 12 (frame_bytes z i t bb) = bb @ [0, 0]" for z
    by (simp add: frame_bytes_def)
  have e: "nat (12 + int (length bb)) - 12 = length bb"
    by simp
  show ?thesis
  proof (cases "bb = []")
    case True
    then show ?thesis
      using assms by (simp add: Buffer_toString_def Let_def)
  next
    case False
    then show ?thesis
      using assms by (simp add: Buffer_toString_def Let_def asciiSlice_def d e)
  qed
qed

lemma readResponse_short:
  assumes "length buffer < 12"
  shows "readResponse buffer = Inl ERR_OUT_OF_RANGE"
  using assms by (auto simp add: readResponse_def readInt32LE_def)

lemma readResponse_fields:
  assumes "readResponse buffer = Inr m"
  shows "is_int32 (id_msg m)" "is_int32 (type_msg m)" "is_int32 (size_msg m)"
  using assms readInt32LE_is_int32
  by (auto simp: readResponse_def split: sum.splits)

lemma is_MessageType_int32: "is_MessageType t \<Longrightarrow> is_int32 t"
  by (auto simp: is_MessageType_def is_int32_def SERVERDATA_RESPONSE_VALUE_def
      SERVERDATA_EXECCOMMAND_def SERVERDATA_AUTH_RESPONSE_def SERVERDATA_AUTH_def)

section \<open>Claims about the frame codec\<close>

text \<open>
  Claim C1. For every id in the signed 32-bit range, every message type of the
  enumeration and every body of printable ASCII characters, \<open>writeMessage\<close> returns a
  buffer of \<open>14 + byteLength body\<close> bytes, and \<open>readResponse\<close> of that buffer returns a
  message with the same id, type and body.
\<close>

theorem roundtrip:
  assumes "is_int32 i" "is_MessageType t" "is_printable_ascii body" "is_jsstring body"
  shows "\<exists>buffer. writeMessage rnd \<lparr>id_base = Some i, type_base = t, body_base = body\<rparr> = Inr buffer
           \<and> length buffer = 14 + byteLength body
           \<and> (\<exists>m. readResponse buffer = Inr m
                  \<and> id_msg m = i \<and> type_msg m = t \<and> body_msg m = body)"
proof -
  have a: "is_ascii body"
    using assms(3) by (rule printable_is_ascii)
  have n: "byteLength body = length body"
    using a by (rule byteLength_ascii)
  have t: "is_int32 t"
    using assms(2) by (rule is_MessageType_int32)
  have sz: "is_int32 (int (length body) + 10)"
    using byteLength_size_in_range[OF assms(4)] n by simp
  let ?buffer = "frame_bytes (int (length body) + 10) i t (asciiToBytes body)"
  have w: "writeMessage rnd \<lparr>id_base = Some i, type_base = t, body_base = body\<rparr> = Inr ?buffer"
    using writeMessage_bytes[OF assms(1) t assms(4), of rnd] n by simp
  have b: "Buffer_toString ?buffer 12 (int (length body) + 10 + 2) = body"
    using Buffer_toString_frame[of "int (length body) + 10" "asciiToBytes body" i t]
      ascii_roundtrip[OF a] by simp
  have r: "readResponse ?buffer = Inr \<lparr>id_msg = i, type_msg = t, body_msg = body,
             size_msg = int (length body) + 10\<rparr>"
    using readResponse_frame[OF sz assms(1) t, of "asciiToBytes body"] b by simp
  show ?thesis
    using w r n by simp
qed

theorem roundtrip_witness:
  "is_int32 (- 2147483648) \<and> is_MessageType SERVERDATA_AUTH
   \<and> is_printable_ascii [0x73, 0x65, 0x63, 0x72, 0x65, 0x74] \<and> is_jsstring [0x73, 0x65, 0x63, 0x72, 0x65, 0x74]
   \<and> (\<exists>buffer. writeMessage 0 \<lparr>id_base = Some (- 2147483648), type_base = SERVERDATA_AUTH,
                     body_base = [0x73, 0x65, 0x63, 0x72, 0x65, 0x74]\<rparr> = Inr buffer
           \<and> length buffer = 20
           \<and> (\<exists>m. readResponse buffer = Inr m \<and> id_msg m = - 2147483648 \<and> type_msg m = SERVERDATA_AUTH
                  \<and> body_msg m = [0x73, 0x65, 0x63, 0x72, 0x65, 0x74]))"
proof -
  have h: "is_int32 (- 2147483648)" "is_MessageType SERVERDATA_AUTH"
    "is_printable_ascii [0x73, 0x65, 0x63, 0x72, 0x65, 0x74]" "is_jsstring [0x73, 0x65, 0x63, 0x72, 0x65, 0x74]"
    by (simp_all add: is_int32_def is_MessageType_def is_printable_ascii_def is_jsstring_def
        kStringMaxLength_def)
  show ?thesis
    using h roundtrip[OF h, of 0] by (simp add: unitLength_def isHighSurrogate_def)
qed





text \<open>
  Claim C7, as amended. For every buffer of at least 12 bytes, whatever its size field
  says, \<open>readResponse\<close> raises no error and returns a message.
\<close>

theorem readResponse_at_least_12:
  assumes "12 \<le> length buffer"
  shows "\<exists>m. readResponse buffer = Inr m"
proof -
  obtain sz where sz: "readInt32LE buffer 0 = Inr sz"
    using assms by (simp add: readInt32LE_def)
  obtain ident where ident: "readInt32LE buffer 4 = Inr ident"
    using assms by (simp add: readInt32LE_def)
  obtain ty where ty: "readInt32LE buffer 8 = Inr ty"
    using assms by (simp add: readInt32LE_def)
  show ?thesis
    by (simp add: readResponse_def sz ident ty)
qed

theorem readResponse_at_least_12_witness:
  "12 \<le> length [255, 255, 255, 127, 1, 0, 0, 0, 9, 0, 0, 0 :: byte]
   \<and> (\<exists>m. readResponse [255, 255, 255, 127, 1, 0, 0, 0, 9, 0, 0, 0] = Inr m)"
  using readResponse_at_least_12[of "[255, 255, 255, 127, 1, 0, 0, 0, 9, 0, 0, 0]"] by simp

text \<open>
  On a buffer shorter than 12 bytes one of the three \<open>readInt32LE\<close> calls raises: here on
  a frame cut after 11 bytes.
\<close>

theorem readResponse_truncated_counterexample:
  "readResponse [10, 0, 0, 0, 1, 0, 0, 0, 3, 0, 0] = Inl ERR_OUT_OF_RANGE
   \<and> \<not> (\<exists>m. readResponse [10, 0, 0, 0, 1, 0, 0, 0, 3, 0, 0] = Inr m)"
  by (simp add: readResponse_short)

text \<open>
  With a null id the id written is the generated one. \<open>generateId\<close> returns an unsigned
  32-bit value and \<open>writeInt32LE\<close> accepts the signed range only.
\<close>

lemma writeMessage_None:
  "writeMessage rnd \<lparr>id_base = None, type_base = t, body_base = body\<rparr>
     = writeMessage rnd \<lparr>id_base = Some (generateId rnd), type_base = t, body_base = body\<rparr>"
  by (simp add: writeMessage_def Let_def cong: sum.case_cong)

lemma writeMessage_generated_id_low:
  assumes "is_jsstring body" "is_int32 t" "uint rnd \<le> 2147483647"
  shows "writeMessage rnd \<lparr>id_base = None, type_base = t, body_base = body\<rparr>
           = Inr (frame_bytes (int (byteLength body) + 10) (uint rnd) t
                    (asciiToBytes body @ replicate (byteLength body - length body) 0))"
proof -
  have "0 \<le> uint rnd"
    by simp
  then have "is_int32 (generateId rnd)"
    unfolding is_int32_def generateId_def using assms(3) by linarith
  then show ?thesis
    unfolding writeMessage_None
    using writeMessage_bytes[OF _ assms(2) assms(1), of "generateId rnd" rnd]
    by (simp add: generateId_def)
qed

lemma writeMessage_generated_id_high:
  assumes "2147483647 < uint rnd"
  shows "writeMessage rnd \<lparr>id_base = None, type_base = t, body_base = body\<rparr>
           = Inl ERR_OUT_OF_RANGE"
  using assms
  by (simp add: writeMessage_def Let_def writeInt32LE_def generateId_def Buffer_alloc_def)

text \<open>
  Claim C8 says that \<open>writeMessage\<close> with a null id succeeds for every generated value. At
  the generated value \<open>2147483648\<close> it raises.
\<close>

theorem writeMessage_generated_id_raises:
  "writeMessage 0x80000000 \<lparr>id_base = None, type_base = SERVERDATA_RESPONSE_VALUE, body_base = []\<rparr>
     = Inl ERR_OUT_OF_RANGE"
  by (simp add: writeMessage_def generateId_def writeInt32LE_def Buffer_alloc_def Let_def)

section \<open>The transport and the example data\<close>

lemma length_conn_read [simp]: "length (conn_read n arrived) = n"
  by (simp add: conn_read_def)

lemma writeMessage_empty:
  assumes "is_int32 i" "is_int32 t"
  shows "writeMessage rnd \<lparr>id_base = Some i, type_base = t, body_base = []\<rparr>
           = Inr (frame_bytes 10 i t [])"
  using writeMessage_bytes[OF assms, of "[]" rnd]
  by (simp add: is_jsstring_def asciiToBytes_def)

lemma message_types_int32:
  "is_int32 SERVERDATA_RESPONSE_VALUE" "is_int32 SERVERDATA_EXECCOMMAND"
  "is_int32 SERVERDATA_AUTH_RESPONSE" "is_int32 SERVERDATA_AUTH"
  by (simp_all add: is_MessageType_int32 is_MessageType_def)


lemma conn_close_open:
  assumes "\<not> closed (resources s conn)"
  shows "conn_close conn s =
           (None, s\<lparr>resources := (resources s)(conn := (resources s conn)\<lparr>closed := True\<rparr>)\<rparr>)"
  using assms by (simp add: conn_close_def)

lemma authenticated_registered:
  assumes "handleConnection_auth rnd conn arrival s = (Authenticated, s')"
  shows "registered s' conn"
  using assms
  by (auto simp: handleConnection_auth_def Let_def conn_write_def conn_close_def emit_def
      registered_def update_conv' split: sum.splits if_splits prod.splits option.splits)

lemma byteLength_examples [simp]:
  "byteLength str_secret = 6" "byteLength str_wrong = 5" "byteLength str_status = 6"
  "byteLength str_ok = 2"
  by (simp_all add: str_secret_def str_wrong_def str_status_def str_ok_def unitLength_def
      isHighSurrogate_def)

lemma length_examples [simp]:
  "length str_secret = 6" "length str_wrong = 5" "length str_status = 6" "length str_ok = 2"
  by (simp_all add: str_secret_def str_wrong_def str_status_def str_ok_def)

lemma is_jsstring_examples [simp]:
  "is_jsstring str_secret" "is_jsstring str_wrong" "is_jsstring str_status" "is_jsstring str_ok"
  by (simp_all add: str_secret_def str_wrong_def str_status_def str_ok_def is_jsstring_def
      kStringMaxLength_def)

lemma is_ascii_examples [simp]:
  "is_ascii str_secret" "is_ascii str_wrong" "is_ascii str_status" "is_ascii str_ok"
  by (simp_all add: str_secret_def str_wrong_def str_status_def str_ok_def is_ascii_def)

lemma readResponse_example:
  assumes "is_int32 i" "is_int32 t" "is_ascii body" "is_jsstring body"
  shows "readResponse (frame_bytes (int (length body) + 10) i t (asciiToBytes body))
           = Inr \<lparr>id_msg = i, type_msg = t, body_msg = body, size_msg = int (length body) + 10\<rparr>"
proof -
  have sz: "is_int32 (int (length body) + 10)"
    using byteLength_size_in_range[OF assms(4)] byteLength_ascii[OF assms(3)] by simp
  show ?thesis
    using readResponse_frame[OF sz assms(1,2), of "asciiToBytes body"]
      Buffer_toString_frame[of "int (length body) + 10" "asciiToBytes body" i t]
      ascii_roundtrip[OF assms(3)]
    by simp
qed

lemma server_accepted_simps [simp]:
  "password server_accepted = str_secret" "connections server_accepted = []"
  "unreplied server_accepted = []" "emitted server_accepted = []"
  "resources server_accepted 5 = \<lparr>written = [], closed = False\<rparr>"
  by (simp_all add: server_accepted_def accept_def new_RCONServer_def)

lemma is_int32_examples [simp]: "is_int32 7" "is_int32 42" "is_int32 (- 1)"
  by (simp_all add: is_int32_def)

lemma conn_read_exact: "length arrived = n \<Longrightarrow> conn_read n arrived = arrived"
  by (simp add: conn_read_def)

lemma server_authenticated_eq:
  "server_authenticated =
     server_accepted
       \<lparr>resources := (resources server_accepted)
          (5 := \<lparr>written = [frame_bytes 10 7 SERVERDATA_RESPONSE_VALUE [],
                            frame_bytes 10 7 SERVERDATA_AUTH_RESPONSE []],
                 closed = False\<rparr>),
        emitted := [Connection 5], connections := [(5, 5)], unreplied := [(5, [])]\<rparr>"
proof -
  have r: "readResponse (frame_bytes 16 7 SERVERDATA_AUTH (asciiToBytes str_secret))
           = Inr \<lparr>id_msg = 7, type_msg = SERVERDATA_AUTH, body_msg = str_secret, size_msg = 16\<rparr>"
    using readResponse_example[of 7 SERVERDATA_AUTH str_secret]
    by (simp add: message_types_int32)
  show ?thesis
    unfolding server_authenticated_def
    by (simp add: handleConnection_auth_def Let_def conn_read_exact r writeMessage_empty
        message_types_int32 conn_write_def emit_def)
qed

lemma server_authenticated_simps [simp]:
  "password server_authenticated = str_secret"
  "connections server_authenticated = [(5, 5)]"
  "unreplied server_authenticated = [(5, [])]"
  "emitted server_authenticated = [Connection 5]"
  "resources server_authenticated 5
     = \<lparr>written = [frame_bytes 10 7 SERVERDATA_RESPONSE_VALUE [],
                      frame_bytes 10 7 SERVERDATA_AUTH_RESPONSE []], closed = False\<rparr>"
  by (simp_all add: server_authenticated_eq)


lemma readResponse_wrong:
  "readResponse (conn_read (4 + 4 + 4 + byteLength (password server_accepted) + 2)
         (frame_bytes 15 7 SERVERDATA_AUTH (asciiToBytes str_wrong)))
       = Inr \<lparr>id_msg = 7, type_msg = SERVERDATA_AUTH, body_msg = str_wrong, size_msg = 15\<rparr>"
  by (simp add: conn_read_def frame_bytes_def le32_def asciiToBytes_def str_wrong_def
      readResponse_def readInt32LE_def int32_of_bytes_def Buffer_toString_def asciiSlice_def
      SERVERDATA_AUTH_def)

lemma pending_update [simp]:
  "pending (s\<lparr>unreplied := AList.update r ms al\<rparr>) r = ms"
  by (simp add: pending_def update_conv')

lemma pending_resources [simp]: "pending (s\<lparr>resources := f\<rparr>) r = pending s r"
  by (simp add: pending_def)

lemma pending_emitted [simp]: "pending (s\<lparr>emitted := f\<rparr>) r = pending s r"
  by (simp add: pending_def)



lemma is_int32_43 [simp]: "is_int32 43"
  by (simp add: is_int32_def)

lemma server_pending_eq:
  "server_pending =
     server_authenticated
       \<lparr>emitted := [Connection 5,
           Request 5 \<lparr>id_msg = 42, type_msg = SERVERDATA_EXECCOMMAND, body_msg = str_status, size_msg = 16\<rparr>,
           Request 5 \<lparr>id_msg = 43, type_msg = SERVERDATA_EXECCOMMAND, body_msg = str_ok, size_msg = 12\<rparr>,
           Request 5 \<lparr>id_msg = 42, type_msg = SERVERDATA_EXECCOMMAND, body_msg = str_ok, size_msg = 12\<rparr>],
        unreplied := [(5,
          [\<lparr>id_msg = 42, type_msg = SERVERDATA_EXECCOMMAND, body_msg = str_status, size_msg = 16\<rparr>,
           \<lparr>id_msg = 43, type_msg = SERVERDATA_EXECCOMMAND, body_msg = str_ok, size_msg = 12\<rparr>,
           \<lparr>id_msg = 42, type_msg = SERVERDATA_EXECCOMMAND, body_msg = str_ok, size_msg = 12\<rparr>])]\<rparr>"
proof -
  have r1: "readResponse (frame_bytes 16 42 SERVERDATA_EXECCOMMAND (asciiToBytes str_status))
      = Inr \<lparr>id_msg = 42, type_msg = SERVERDATA_EXECCOMMAND, body_msg = str_status, size_msg = 16\<rparr>"
    using readResponse_example[of 42 SERVERDATA_EXECCOMMAND str_status]
    by (simp add: message_types_int32)
  have r2: "readResponse (frame_bytes 12 43 SERVERDATA_EXECCOMMAND (asciiToBytes str_ok))
      = Inr \<lparr>id_msg = 43, type_msg = SERVERDATA_EXECCOMMAND, body_msg = str_ok, size_msg = 12\<rparr>"
    using readResponse_example[of 43 SERVERDATA_EXECCOMMAND str_ok]
    by (simp add: message_types_int32)
  have r3: "readResponse (frame_bytes 12 42 SERVERDATA_EXECCOMMAND (asciiToBytes str_ok))
      = Inr \<lparr>id_msg = 42, type_msg = SERVERDATA_EXECCOMMAND, body_msg = str_ok, size_msg = 12\<rparr>"
    using readResponse_example[of 42 SERVERDATA_EXECCOMMAND str_ok]
    by (simp add: message_types_int32)
  show ?thesis
    unfolding server_pending_def
    by (simp add: handleBuffer_def r1 r2 r3 emit_def Let_def)
qed

lemma server_pending_simps [simp]:
  "connections server_pending = [(5, 5)]"
  "unreplied server_pending = [(5,
          [\<lparr>id_msg = 42, type_msg = SERVERDATA_EXECCOMMAND, body_msg = str_status, size_msg = 16\<rparr>,
           \<lparr>id_msg = 43, type_msg = SERVERDATA_EXECCOMMAND, body_msg = str_ok, size_msg = 12\<rparr>,
           \<lparr>id_msg = 42, type_msg = SERVERDATA_EXECCOMMAND, body_msg = str_ok, size_msg = 12\<rparr>])]"
  "resources server_pending 5
     = \<lparr>written = [frame_bytes 10 7 SERVERDATA_RESPONSE_VALUE [],
                      frame_bytes 10 7 SERVERDATA_AUTH_RESPONSE []], closed = False\<rparr>"
  by (simp_all add: server_pending_eq)




section \<open>What the operations keep\<close>

text \<open>
  A registered connection stays registered through a turn of any read loop, through any
  \<open>reply\<close>, through the authentication of another connection and through the closing of
  another connection; closing it removes it from both maps.
\<close>

lemma handleBuffer_registered:
  assumes "registered s r"
  shows "registered (snd (handleBuffer conn buffer s)) r"
  using assms
  by (auto simp: handleBuffer_def registered_def emit_def conn_write_def update_conv' Let_def
      split: sum.splits option.splits)

lemma reply_keeps_registered:
  assumes "registered s r'"
  shows "registered (snd (reply rnd r reqId body s)) r'"
  using assms
  by (auto simp: reply_def registered_def conn_write_def update_conv' Let_def
      split: sum.splits option.splits)

lemma handleConnection_auth_other:
  assumes "registered s r" "conn \<noteq> r"
  shows "registered (snd (handleConnection_auth rnd conn arrival s)) r"
  using assms
  by (auto simp: handleConnection_auth_def registered_def emit_def conn_write_def conn_close_def
      update_conv' Let_def split: sum.splits option.splits)

lemma closeConnection_other:
  assumes "registered s r'" "registered s r" "r \<noteq> r'"
  shows "registered (snd (closeConnection r s)) r'"
  using assms
  by (auto simp: closeConnection_def registered_def emit_def conn_close_def delete_conv' Let_def
      split: option.splits)

lemma closeConnection_unregisters:
  assumes "registered s r"
  shows "closeConnection r s =
           (None, s\<lparr>resources := (resources s)(r := (resources s r)\<lparr>closed := True\<rparr>),
                     connections := AList.delete r (connections s),
                     emitted := emitted s @ [Close r],
                     unreplied := AList.delete r (unreplied s)\<rparr>)"
  using assms
  by (simp add: closeConnection_def registered_def emit_def conn_close_def Let_def)

section \<open>Claims about the authentication\<close>

text \<open>
  Claim C2. On a new, open connection whose first frame decodes to a message of type
  \<open>SERVERDATA_AUTH\<close> with id \<open>i\<close>: when the body is the password, exactly two frames
  are written, an empty \<open>SERVERDATA_RESPONSE_VALUE\<close> with id \<open>i\<close> and then an empty
  \<open>SERVERDATA_AUTH_RESPONSE\<close> with id \<open>i\<close>, the connection stays open, the
  \<open>connection\<close> event is emitted and the connection is entered in both maps; when the
  body is not the password, the same first frame is written, then an empty
  \<open>SERVERDATA_AUTH_RESPONSE\<close> with id \<open>-1\<close>, and the connection is closed.
\<close>

theorem auth_gate:
  assumes "\<not> closed (resources s conn)"
    and "readResponse (conn_read (4 + 4 + 4 + byteLength (password s) + 2) arrived) = Inr m"
    and "type_msg m = SERVERDATA_AUTH"
  shows "handleConnection_auth rnd conn (Inr arrived) s =
     (if body_msg m = password s
      then (Authenticated,
            s\<lparr>resources := (resources s)
                 (conn := (resources s conn)
                    \<lparr>written := written (resources s conn)
                       @ [frame_bytes 10 (id_msg m) SERVERDATA_RESPONSE_VALUE [],
                          frame_bytes 10 (id_msg m) SERVERDATA_AUTH_RESPONSE []]\<rparr>),
              emitted := emitted s @ [Connection conn],
              connections := AList.update conn conn (connections s),
              unreplied := AList.update conn [] (unreplied s)\<rparr>)
      else (Returned,
            s\<lparr>resources := (resources s)
                 (conn := (resources s conn)
                    \<lparr>written := written (resources s conn)
                       @ [frame_bytes 10 (id_msg m) SERVERDATA_RESPONSE_VALUE [],
                          frame_bytes 10 (- 1) SERVERDATA_AUTH_RESPONSE []],
                     closed := True\<rparr>)\<rparr>))"
proof -
  have i: "is_int32 (id_msg m)"
    using assms(2) by (rule readResponse_fields)
  have m1: "is_int32 (- 1)"
    by (simp add: is_int32_def)
  note w = writeMessage_empty[OF i message_types_int32(1)]
    writeMessage_empty[OF i message_types_int32(3)]
    writeMessage_empty[OF m1 message_types_int32(3)]
  show ?thesis
    using assms
    by (simp add: handleConnection_auth_def Let_def w conn_write_def conn_close_def emit_def)
qed

theorem auth_gate_witness:
  "\<not> closed (resources server_accepted 5)
   \<and> readResponse (conn_read (4 + 4 + 4 + byteLength (password server_accepted) + 2)
         (frame_bytes 16 7 SERVERDATA_AUTH (asciiToBytes str_secret)))
       = Inr \<lparr>id_msg = 7, type_msg = SERVERDATA_AUTH, body_msg = str_secret, size_msg = 16\<rparr>
   \<and> readResponse (conn_read (4 + 4 + 4 + byteLength (password server_accepted) + 2)
         (frame_bytes 15 7 SERVERDATA_AUTH (asciiToBytes str_wrong)))
       = Inr \<lparr>id_msg = 7, type_msg = SERVERDATA_AUTH, body_msg = str_wrong, size_msg = 15\<rparr>
   \<and> fst (handleConnection_auth 0 5
         (Inr (frame_bytes 16 7 SERVERDATA_AUTH (asciiToBytes str_secret))) server_accepted)
       = Authenticated
   \<and> resources (snd (handleConnection_auth 0 5
         (Inr (frame_bytes 16 7 SERVERDATA_AUTH (asciiToBytes str_secret))) server_accepted)) 5
       = \<lparr>written = [frame_bytes 10 7 SERVERDATA_RESPONSE_VALUE [],
                      frame_bytes 10 7 SERVERDATA_AUTH_RESPONSE []], closed = False\<rparr>
   \<and> fst (handleConnection_auth 0 5
         (Inr (frame_bytes 15 7 SERVERDATA_AUTH (asciiToBytes str_wrong))) server_accepted)
       = Returned
   \<and> resources (snd (handleConnection_auth 0 5
         (Inr (frame_bytes 15 7 SERVERDATA_AUTH (asciiToBytes str_wrong))) server_accepted)) 5
       = \<lparr>written = [frame_bytes 10 7 SERVERDATA_RESPONSE_VALUE [],
                      frame_bytes 10 (- 1) SERVERDATA_AUTH_RESPONSE []], closed = True\<rparr>"
proof -
  let ?good = "frame_bytes 16 7 SERVERDATA_AUTH (asciiToBytes str_secret)"
  let ?bad = "frame_bytes 15 7 SERVERDATA_AUTH (asciiToBytes str_wrong)"
  have o: "\<not> closed (resources server_accepted 5)"
    by simp
  have g: "readResponse (conn_read (4 + 4 + 4 + byteLength (password server_accepted) + 2) ?good)
       = Inr \<lparr>id_msg = 7, type_msg = SERVERDATA_AUTH, body_msg = str_secret, size_msg = 16\<rparr>"
    using readResponse_example[of 7 SERVERDATA_AUTH str_secret]
    by (simp add: conn_read_exact message_types_int32)
  note b = readResponse_wrong
  have ne: "str_wrong \<noteq> str_secret"
    by (simp add: str_wrong_def str_secret_def)
  show ?thesis
    using o g b ne auth_gate[OF o g, of 0] auth_gate[OF o b, of 0] by simp
qed

text \<open>
  A client that sends the frame \<open>writeMessage\<close> builds for the password is let in, when
  the password is ASCII.
\<close>

lemma auth_gate_accepts_encoded_password:
  assumes "\<not> closed (resources s conn)" "is_ascii (password s)" "is_jsstring (password s)"
    and "is_int32 i"
    and "writeMessage rnd' \<lparr>id_base = Some i, type_base = SERVERDATA_AUTH,
           body_base = password s\<rparr> = Inr arrived"
  shows "fst (handleConnection_auth rnd conn (Inr arrived) s) = Authenticated"
proof -
  have n: "byteLength (password s) = length (password s)"
    using assms(2) by (rule byteLength_ascii)
  have a: "arrived = frame_bytes (int (length (password s)) + 10) i SERVERDATA_AUTH
                       (asciiToBytes (password s))"
    using assms(5) writeMessage_bytes[OF assms(4) message_types_int32(4) assms(3), of rnd'] n
    by simp
  have r: "readResponse (conn_read (4 + 4 + 4 + byteLength (password s) + 2) arrived)
             = Inr \<lparr>id_msg = i, type_msg = SERVERDATA_AUTH, body_msg = password s,
                    size_msg = int (length (password s)) + 10\<rparr>"
    unfolding a
    using readResponse_example[OF assms(4) message_types_int32(4) assms(2,3)]
    by (simp add: conn_read_exact n)
  show ?thesis
    using assms(1) r
    by (simp add: handleConnection_auth_def Let_def writeMessage_empty assms(4)
        message_types_int32 conn_write_def emit_def)
qed

text \<open>
  Claim C4. When the first frame on a new, open connection decodes to a message whose
  type is not \<open>SERVERDATA_AUTH\<close>, the connection is closed and nothing else changes:
  nothing is written, no event is emitted, the connection is entered in no map, and
  \<open>handleConnection\<close> returns without reading further.
\<close>

theorem auth_gate_rejects_non_auth:
  assumes "\<not> closed (resources s conn)"
    and "readResponse (conn_read (4 + 4 + 4 + byteLength (password s) + 2) arrived) = Inr m"
    and "type_msg m \<noteq> SERVERDATA_AUTH"
  shows "handleConnection_auth rnd conn (Inr arrived) s
           = (Returned, s\<lparr>resources := (resources s)(conn := (resources s conn)\<lparr>closed := True\<rparr>)\<rparr>)
         \<and> handleConnection rnd conn (Inr arrived) buffers fin s
           = (None, s\<lparr>resources := (resources s)(conn := (resources s conn)\<lparr>closed := True\<rparr>)\<rparr>)"
  using assms by (simp add: handleConnection_def handleConnection_auth_def Let_def conn_close_open)

theorem auth_gate_rejects_non_auth_witness:
  "\<not> closed (resources server_accepted 5)
   \<and> readResponse (conn_read (4 + 4 + 4 + byteLength (password server_accepted) + 2)
         (frame_bytes 16 7 SERVERDATA_EXECCOMMAND (asciiToBytes str_secret)))
       = Inr \<lparr>id_msg = 7, type_msg = SERVERDATA_EXECCOMMAND, body_msg = str_secret, size_msg = 16\<rparr>
   \<and> SERVERDATA_EXECCOMMAND \<noteq> SERVERDATA_AUTH
   \<and> handleConnection_auth 0 5
         (Inr (frame_bytes 16 7 SERVERDATA_EXECCOMMAND (asciiToBytes str_secret))) server_accepted
       = (Returned, server_accepted\<lparr>resources := (resources server_accepted)
                      (5 := \<lparr>written = [], closed = True\<rparr>)\<rparr>)
   \<and> handleConnection 0 5
         (Inr (frame_bytes 16 7 SERVERDATA_EXECCOMMAND (asciiToBytes str_secret))) [] EOF
         server_accepted
       = (None, server_accepted\<lparr>resources := (resources server_accepted)
                      (5 := \<lparr>written = [], closed = True\<rparr>)\<rparr>)"
proof -
  let ?arrived = "frame_bytes 16 7 SERVERDATA_EXECCOMMAND (asciiToBytes str_secret)"
  have o: "\<not> closed (resources server_accepted 5)"
    by simp
  have r: "readResponse (conn_read (4 + 4 + 4 + byteLength (password server_accepted) + 2) ?arrived)
       = Inr \<lparr>id_msg = 7, type_msg = SERVERDATA_EXECCOMMAND, body_msg = str_secret, size_msg = 16\<rparr>"
    using readResponse_example[of 7 SERVERDATA_EXECCOMMAND str_secret]
    by (simp add: conn_read_exact message_types_int32)
  have t: "type_msg \<lparr>id_msg = 7, type_msg = SERVERDATA_EXECCOMMAND, body_msg = str_secret,
             size_msg = 16\<rparr> \<noteq> SERVERDATA_AUTH"
    by (simp add: SERVERDATA_EXECCOMMAND_def SERVERDATA_AUTH_def)
  show ?thesis
    using o r t auth_gate_rejects_non_auth[OF o r t, of 0 "[]" EOF] by simp
qed

section \<open>Claims about \<open>reply\<close>\<close>

text \<open>
  Claim C5. For a connection id that is not a key of \<open>connections\<close>, \<open>reply\<close> raises
  \<open>Connection not found\<close> and leaves the whole state as it was: nothing is written and
  no map changes.
\<close>

theorem reply_unknown_connection:
  assumes "map_of (connections s) r = None"
  shows "reply rnd r reqId body s = (Some ConnectionNotFound, s)"
  using assms by (simp add: reply_def)

theorem reply_unknown_connection_witness:
  "map_of (connections server_authenticated) 9 = None
   \<and> reply 0 9 42 str_ok server_authenticated = (Some ConnectionNotFound, server_authenticated)"
proof -
  have h: "map_of (connections server_authenticated) 9 = None"
    by simp
  show ?thesis
    using h reply_unknown_connection[OF h, of 0 42 str_ok] by simp
qed






section \<open>Claims about the report of unreplied requests\<close>

text \<open>
  Called as a method of the server, \<open>notifyUnreplied\<close> emits one \<open>unreplied\<close> event for
  every pending request of every connection and changes nothing else.
\<close>

lemma notifyUnreplied_method:
  "notifyUnreplied TheServer s =
     (None, s\<lparr>emitted := emitted s
                @ concat (map (\<lambda>(r, messages). map (Unreplied r) messages) (unreplied s))\<rparr>)"
  by (simp add: notifyUnreplied_def)

lemma notifyUnreplied_method_reports:
  assumes "(r, messages) \<in> set (unreplied s)" "m \<in> set messages"
  shows "Unreplied r m \<in> set (emitted (snd (notifyUnreplied TheServer s)))"
  using assms by (force simp: notifyUnreplied_def)

lemma notifyUnreplied_method_frame:
  "unreplied (snd (notifyUnreplied TheServer s)) = unreplied s"
  "connections (snd (notifyUnreplied TheServer s)) = connections s"
  "resources (snd (notifyUnreplied TheServer s)) = resources s"
  by (simp_all add: notifyUnreplied_def)

text \<open>
  Claim C9 says that every tick of the timer emits one \<open>unreplied\<close> event for each
  pending request. The timer calls \<open>notifyUnreplied\<close> without the server as receiver:
  every tick raises a \<open>TypeError\<close> and emits nothing, whatever is pending.
\<close>

theorem unrepliedInterval_tick_raises:
  "unrepliedInterval_tick s = (Some TypeError, s)"
  by (simp add: unrepliedInterval_tick_def notifyUnreplied_def)

end
